theory Spec2Isabelle
  imports Complex_Main "HOL-Library.Char_ord" "HOL-Library.List_Lexorder" "HOL-Library.Multiset"
begin

section \<open>Paths, names and classification keys\<close>

text \<open>
  A \<^verbatim>\<open>pathlib.Path\<close> is modelled by its list of components. Python orders paths by
  comparing these component lists, each component as a string, which is the
  lexicographic order that lists of strings carry here. The characters of a component
  stand for their code points (the 8-bit range).
\<close>

type_synonym path = "string list"

text \<open>Bytes and code points are natural numbers; a decoded text is a list of code points.\<close>

type_synonym bytes = "nat list"
type_synonym codepoints = "nat list"

datatype os_error = FileNotFoundError | PermissionError

datatype error = OSError os_error | ValueError | ZeroDivisionError

text \<open>\<^verbatim>\<open>Path.name\<close>: the final component, the empty string for the empty path.\<close>

fun name :: "path \<Rightarrow> string" where
  "name [] = []"
| "name [c] = c"
| "name (c # cs) = name cs"

text \<open>\<^verbatim>\<open>str.rfind\<close>, with \<open>None\<close> for Python's \<open>-1\<close>.\<close>

fun rfind :: "char \<Rightarrow> string \<Rightarrow> nat option" where
  "rfind c [] = None"
| "rfind c (x # xs) =
     (case rfind c xs of
        Some i \<Rightarrow> Some (Suc i)
      | None \<Rightarrow> if x = c then Some 0 else None)"

text \<open>
  \<^verbatim>\<open>Path.suffix\<close> and \<^verbatim>\<open>Path.stem\<close>: the name is cut at its last dot when
  \<^verbatim>\<open>0 < i < len(name) - 1\<close>.
\<close>

definition suffix :: "path \<Rightarrow> string" where
  "suffix p =
     (case rfind (CHR ''.'') (name p) of
        Some i \<Rightarrow> if 0 < i \<and> Suc i < length (name p) then drop i (name p) else []
      | None \<Rightarrow> [])"

definition stem :: "path \<Rightarrow> string" where
  "stem p =
     (case rfind (CHR ''.'') (name p) of
        Some i \<Rightarrow> if 0 < i \<and> Suc i < length (name p) then take i (name p) else name p
      | None \<Rightarrow> name p)"

text \<open>
  \<^verbatim>\<open>str.lower\<close> on the code points that a character holds: the letters \<open>A\<close> to
  \<open>Z\<close> and the capital letters of Latin-1, \<open>0xC0\<close> to \<open>0xDE\<close> without the
  multiplication sign \<open>0xD7\<close>, go to the letter 32 places further; every other
  character is left as it is.
\<close>

definition upper_chars :: string where
  "upper_chars =
     ''ABCDEFGHIJKLMNOPQRSTUVWXYZ''
     @ [CHR 0xC0, CHR 0xC1, CHR 0xC2, CHR 0xC3, CHR 0xC4, CHR 0xC5, CHR 0xC6, CHR 0xC7,
        CHR 0xC8, CHR 0xC9, CHR 0xCA, CHR 0xCB, CHR 0xCC, CHR 0xCD, CHR 0xCE, CHR 0xCF,
        CHR 0xD0, CHR 0xD1, CHR 0xD2, CHR 0xD3, CHR 0xD4, CHR 0xD5, CHR 0xD6]
     @ [CHR 0xD8, CHR 0xD9, CHR 0xDA, CHR 0xDB, CHR 0xDC, CHR 0xDD, CHR 0xDE]"

definition lower_chars :: string where
  "lower_chars =
     ''abcdefghijklmnopqrstuvwxyz''
     @ [CHR 0xE0, CHR 0xE1, CHR 0xE2, CHR 0xE3, CHR 0xE4, CHR 0xE5, CHR 0xE6, CHR 0xE7,
        CHR 0xE8, CHR 0xE9, CHR 0xEA, CHR 0xEB, CHR 0xEC, CHR 0xED, CHR 0xEE, CHR 0xEF,
        CHR 0xF0, CHR 0xF1, CHR 0xF2, CHR 0xF3, CHR 0xF4, CHR 0xF5, CHR 0xF6]
     @ [CHR 0xF8, CHR 0xF9, CHR 0xFA, CHR 0xFB, CHR 0xFC, CHR 0xFD, CHR 0xFE]"

definition lower_char :: "char \<Rightarrow> char" where
  "lower_char c = (case map_of (zip upper_chars lower_chars) c of Some l \<Rightarrow> l | None \<Rightarrow> c)"

definition lower :: "string \<Rightarrow> string" where
  "lower s = map lower_char s"

text \<open>\<^verbatim>\<open>ext = file_path.suffix.lower() or 'no_extension'\<close>\<close>

definition classify :: "path \<Rightarrow> string" where
  "classify p = (if lower (suffix p) = [] then ''no_extension'' else lower (suffix p))"

definition BINARY_EXTENSIONS :: "string list" where
  "BINARY_EXTENSIONS =
     [''.png'', ''.jpg'', ''.jpeg'', ''.gif'', ''.bmp'', ''.ico'', ''.webp'',
      ''.ogg'', ''.mp3'', ''.wav'', ''.flac'',
      ''.ttf'', ''.woff'', ''.woff2'', ''.eot'',
      ''.bin'', ''.dat'', ''.class'']"

text \<open>\<^verbatim>\<open>ext[1:] if ext.startswith('.') else ext\<close>\<close>

definition strip_dot :: "string \<Rightarrow> string" where
  "strip_dot ext = (case ext of c # cs \<Rightarrow> if c = CHR ''.'' then cs else ext | [] \<Rightarrow> ext)"

text \<open>\<^verbatim>\<open>Path.relative_to\<close>: raises \<^verbatim>\<open>ValueError\<close> unless the base is a prefix.\<close>

fun relative_to :: "path \<Rightarrow> path \<Rightarrow> error + path" where
  "relative_to p [] = Inr p"
| "relative_to [] (b # bs) = Inl ValueError"
| "relative_to (c # cs) (b # bs) = (if c = b then relative_to cs bs else Inl ValueError)"

text \<open>\<^verbatim>\<open>str(path)\<close>: the components joined by the separator.\<close>

fun path_str :: "path \<Rightarrow> string" where
  "path_str [] = ''.''"
| "path_str [c] = c"
| "path_str (c # cs) = c @ ''/'' @ path_str cs"

text \<open>The decimal numeral of a number, as an f-string prints it.\<close>

fun str_nat :: "nat \<Rightarrow> string" where
  "str_nat n =
     (if n < 10 then [''0123456789'' ! n]
      else str_nat (n div 10) @ [''0123456789'' ! (n mod 10)])"

declare str_nat.simps [simp del]

section \<open>Decoding and encoding text\<close>

definition cont :: "nat \<Rightarrow> bool" where
  "cont b = (128 \<le> b \<and> b < 192)"

text \<open>
  The strict UTF-8 decoder behind \<^verbatim>\<open>read_text(encoding='utf-8')\<close>: \<open>None\<close> is
  \<^verbatim>\<open>UnicodeDecodeError\<close>. Overlong forms, surrogates and code points above
  \<^verbatim>\<open>0x10FFFF\<close> are refused.
\<close>

fun utf8_decode :: "bytes \<Rightarrow> codepoints option" where
  "utf8_decode [] = Some []"
| "utf8_decode (b # bs) =
     (if b < 128 then map_option ((#) b) (utf8_decode bs)
      else if 194 \<le> b \<and> b < 224 then
        (case bs of
           c1 # r \<Rightarrow>
             if cont c1
             then map_option ((#) ((b - 192) * 64 + (c1 - 128))) (utf8_decode r)
             else None
         | _ \<Rightarrow> None)
      else if 224 \<le> b \<and> b < 240 then
        (case bs of
           c1 # c2 # r \<Rightarrow>
             (let cp = (b - 224) * 4096 + (c1 - 128) * 64 + (c2 - 128)
              in if cont c1 \<and> cont c2 \<and> 2048 \<le> cp \<and> \<not> (55296 \<le> cp \<and> cp < 57344)
                 then map_option ((#) cp) (utf8_decode r)
                 else None)
         | _ \<Rightarrow> None)
      else if 240 \<le> b \<and> b < 245 then
        (case bs of
           c1 # c2 # c3 # r \<Rightarrow>
             (let cp = (b - 240) * 262144 + (c1 - 128) * 4096 + (c2 - 128) * 64 + (c3 - 128)
              in if cont c1 \<and> cont c2 \<and> cont c3 \<and> 65536 \<le> cp \<and> cp < 1114112
                 then map_option ((#) cp) (utf8_decode r)
                 else None)
         | _ \<Rightarrow> None)
      else None)"

text \<open>Latin-1 maps every byte to the code point of the same value; it never fails.\<close>

definition latin1_decode :: "bytes \<Rightarrow> codepoints" where
  "latin1_decode bs = bs"

text \<open>
  Reading in text mode translates \<^verbatim>\<open>\r\n\<close> and a lone \<^verbatim>\<open>\r\<close> into \<^verbatim>\<open>\n\<close>
  (universal newlines).
\<close>

fun universal_newlines :: "codepoints \<Rightarrow> codepoints" where
  "universal_newlines [] = []"
| "universal_newlines [c] = (if c = 13 then [10] else [c])"
| "universal_newlines (c # d # cs) =
     (if c = 13 \<and> d = 10 then 10 # universal_newlines cs
      else if c = 13 then 10 # universal_newlines (d # cs)
      else c # universal_newlines (d # cs))"

text \<open>
  Writing through a handle opened with \<^verbatim>\<open>encoding='utf-8', errors='replace'\<close>:
  a surrogate cannot be encoded and is replaced by a question mark. Newlines are
  written as they are (POSIX).
\<close>

definition utf8_encode_cp :: "nat \<Rightarrow> bytes" where
  "utf8_encode_cp cp =
     (if cp < 128 then [cp]
      else if cp < 2048 then [192 + cp div 64, 128 + cp mod 64]
      else if 55296 \<le> cp \<and> cp < 57344 then [63]
      else if cp < 65536 then [224 + cp div 4096, 128 + (cp div 64) mod 64, 128 + cp mod 64]
      else [240 + cp div 262144, 128 + (cp div 4096) mod 64,
            128 + (cp div 64) mod 64, 128 + cp mod 64])"

definition utf8_encode :: "codepoints \<Rightarrow> bytes" where
  "utf8_encode t = concat (map utf8_encode_cp t)"

definition text_of :: "string \<Rightarrow> codepoints" where
  "text_of s = map of_char s"

section \<open>The environment and the output area\<close>

text \<open>
  What the program observes of the world: for each input archive its scratch
  directory, whether \<^verbatim>\<open>decompile_jar\<close> reported success and what
  \<^verbatim>\<open>rglob('*')\<close> then lists (relative to the scratch directory, in enumeration
  order); for each path whether it is a regular file, what \<^verbatim>\<open>stat\<close> returns and
  what reading its bytes returns. A file that vanishes after \<^verbatim>\<open>stat\<close> has a size
  but no readable bytes.
\<close>

record env =
  scratch :: "path \<Rightarrow> path"
  decompile_ok :: "path \<Rightarrow> bool"
  entries :: "path \<Rightarrow> path list"
  is_file :: "path \<Rightarrow> bool"
  stat_size :: "path \<Rightarrow> os_error + nat"
  read_bytes :: "path \<Rightarrow> os_error + bytes"

text \<open>
  The output side: the directories made, the text files with the bytes they hold on
  disk, the open descriptors (one entry per handle, named by its file) and the
  archives written, each with its members as pairs of source path and archive name.
\<close>

record fs =
  dirs :: "path set"
  files :: "path \<rightharpoonup> bytes"
  handles :: "path list"
  zips :: "(path \<times> (path \<times> path) list) list"

text \<open>
  A file object of the program: the file it is on, whether it was opened for
  appending, and the bytes written through it that have not reached the file. The
  bytes reach the file when the handle is closed. (The library also flushes a buffer
  that is full; this changes what a file holds only when another handle writes to the
  same file in between.)
\<close>

record handle =
  hpath :: path
  appending :: bool
  pending :: bytes

definition mkdir :: "path \<Rightarrow> fs \<Rightarrow> fs" where
  "mkdir p d = d\<lparr>dirs := insert p (dirs d)\<rparr>"

text \<open>\<^verbatim>\<open>open(p, 'w')\<close> empties the file, \<^verbatim>\<open>open(p, 'a')\<close> keeps what it holds.\<close>

definition open_write :: "path \<Rightarrow> fs \<Rightarrow> fs" where
  "open_write p d = d\<lparr>files := (files d)(p \<mapsto> []), handles := p # handles d\<rparr>"

definition open_append :: "path \<Rightarrow> fs \<Rightarrow> fs" where
  "open_append p d =
     d\<lparr>files := (files d)(p \<mapsto> (case files d p of None \<Rightarrow> [] | Some old \<Rightarrow> old)),
       handles := p # handles d\<rparr>"

definition write_bytes :: "bytes \<Rightarrow> handle \<Rightarrow> handle" where
  "write_bytes bs h = h\<lparr>pending := pending h @ bs\<rparr>"

text \<open>
  Closing flushes: a handle opened for appending adds its bytes at the end of the
  file, any other handle writes them from the start of the file.
\<close>

definition flushed :: "handle \<Rightarrow> bytes \<Rightarrow> bytes" where
  "flushed h old = (if appending h then old @ pending h
                    else pending h @ drop (length (pending h)) old)"

definition close_file :: "handle \<Rightarrow> fs \<Rightarrow> fs" where
  "close_file h d =
     d\<lparr>files := (files d)(hpath h \<mapsto>
                  flushed h (case files d (hpath h) of None \<Rightarrow> [] | Some old \<Rightarrow> old)),
       handles := remove1 (hpath h) (handles d)\<rparr>"

text \<open>
  \<^verbatim>\<open>read_text(encoding='utf-8')\<close>, and on \<^verbatim>\<open>UnicodeDecodeError\<close>
  \<^verbatim>\<open>read_text(encoding='latin-1', errors='replace')\<close>. An error of the operating
  system is not caught.
\<close>

definition read_content :: "env \<Rightarrow> path \<Rightarrow> os_error + codepoints" where
  "read_content e p =
     (case read_bytes e p of
        Inl err \<Rightarrow> Inl err
      | Inr bs \<Rightarrow>
          (case utf8_decode bs of
             Some t \<Rightarrow> Inr (universal_newlines t)
           | None \<Rightarrow> Inr (universal_newlines (latin1_decode bs))))"

text \<open>A loop whose body may raise: the state reached is kept with the error.\<close>

fun for_each :: "('a \<Rightarrow> 's \<Rightarrow> 's \<times> error option) \<Rightarrow> 'a list \<Rightarrow> 's \<Rightarrow> 's \<times> error option" where
  "for_each f [] s = (s, None)"
| "for_each f (x # xs) s =
     (case f x s of
        (s', None) \<Rightarrow> for_each f xs s'
      | (s', Some err) \<Rightarrow> (s', Some err))"

section \<open>The text aggregator of Individual mode\<close>

record agg =
  part_num :: nat
  current_size :: nat
  outfile :: "handle option"
  context_files :: "path list"
  disk :: fs

definition bundle_path :: "path \<Rightarrow> string \<Rightarrow> nat \<Rightarrow> path" where
  "bundle_path output_path base_filename_stem n =
     output_path @ [base_filename_stem @ ''_'' @ str_nat n @ ''.txt'']"

definition header :: "path \<Rightarrow> codepoints" where
  "header rel =
     text_of (''\<newline>'' @ replicate 25 (CHR ''='') @ '' START: '' @ path_str rel @ '' ''
              @ replicate 25 (CHR ''='') @ ''\<newline>\<newline>'')"

text \<open>Closing the bundle and moving to the next part, line 121 to 123.\<close>

definition rollover :: "real \<Rightarrow> nat \<Rightarrow> agg \<Rightarrow> agg" where
  "rollover max_size_bytes file_size s =
     (case outfile s of
        Some h \<Rightarrow>
          if real (current_size s + file_size) > max_size_bytes \<and> current_size s > 0
          then s\<lparr>part_num := part_num s + 1, current_size := 0, outfile := None,
                 disk := close_file h (disk s)\<rparr>
          else s
      | None \<Rightarrow> s)"

text \<open>Opening the bundle of the current part when none is open, line 125 to 129.\<close>

definition ensure_open :: "path \<Rightarrow> string \<Rightarrow> agg \<Rightarrow> agg" where
  "ensure_open output_path base_filename_stem s =
     (case outfile s of
        None \<Rightarrow>
          (let p = bundle_path output_path base_filename_stem (part_num s)
           in s\<lparr>outfile := Some \<lparr>hpath = p, appending = False, pending = []\<rparr>,
                 context_files := context_files s @ [p],
                 disk := open_write p (disk s)\<rparr>)
      | Some h \<Rightarrow> s)"

text \<open>Header, content and size, line 131 to 138, through the handle \<open>h\<close>.\<close>

definition append_file :: "env \<Rightarrow> path \<Rightarrow> path \<Rightarrow> nat \<Rightarrow> handle \<Rightarrow> agg \<Rightarrow> agg \<times> error option" where
  "append_file e src_path file_path file_size h s =
     (case relative_to file_path src_path of
        Inl err \<Rightarrow> (s, Some err)
      | Inr rel \<Rightarrow>
          (let h1 = write_bytes (utf8_encode (header rel)) h
           in case read_content e file_path of
                Inl err \<Rightarrow> (s\<lparr>outfile := Some h1\<rparr>, Some (OSError err))
              | Inr content \<Rightarrow>
                  (s\<lparr>outfile := Some (write_bytes (utf8_encode content) h1),
                     current_size := current_size s + file_size\<rparr>, None)))"

text \<open>The body of the loop over the files of one key, line 115 to 138.\<close>

definition process_file ::
  "env \<Rightarrow> path \<Rightarrow> path \<Rightarrow> real \<Rightarrow> string \<Rightarrow> path \<Rightarrow> agg \<Rightarrow> agg \<times> error option" where
  "process_file e output_path src_path max_size_bytes base_filename_stem file_path s =
     (case stat_size e file_path of
        Inl FileNotFoundError \<Rightarrow> (s, None)
      | Inl err \<Rightarrow> (s, Some (OSError err))
      | Inr file_size \<Rightarrow>
          (let s1 = ensure_open output_path base_filename_stem
                      (rollover max_size_bytes file_size s)
           in case outfile s1 of
                Some h \<Rightarrow> append_file e src_path file_path file_size h s1
              | None \<Rightarrow> (s1, None)))"

text \<open>
  One key, line 107 to 140: the files are already sorted; the bundle left open by the
  loop is closed when the loop ends normally, and only then.
\<close>

definition process_key ::
  "env \<Rightarrow> path \<Rightarrow> path \<Rightarrow> real \<Rightarrow> string \<Rightarrow> path list \<Rightarrow> path list \<times> fs
     \<Rightarrow> (path list \<times> fs) \<times> error option" where
  "process_key e output_path src_path max_size_bytes ext fs0 acc =
     (case for_each
             (process_file e output_path src_path max_size_bytes (strip_dot ext @ ''_context''))
             fs0
             \<lparr>part_num = 1, current_size = 0, outfile = None,
              context_files = fst acc, disk = snd acc\<rparr> of
        (s, Some err) \<Rightarrow> ((context_files s, disk s), Some err)
      | (s, None) \<Rightarrow>
          ((context_files s,
            (case outfile s of Some h \<Rightarrow> close_file h (disk s) | None \<Rightarrow> disk s)), None))"

text \<open>
  The loop over the keys, line 106 to 140. The lists of the dictionary are sorted in
  place, so the dictionary as the caller sees it afterwards is returned as well.
\<close>

fun context_loop ::
  "env \<Rightarrow> path \<Rightarrow> path \<Rightarrow> real \<Rightarrow> (string \<times> path list) list \<Rightarrow> path list \<times> fs
     \<Rightarrow> (string \<times> path list) list \<times> (path list \<times> fs) \<times> error option" where
  "context_loop e output_path src_path max_size_bytes [] acc = ([], acc, None)"
| "context_loop e output_path src_path max_size_bytes ((ext, fs0) # g) acc =
     (if ext \<in> set BINARY_EXTENSIONS
      then (case context_loop e output_path src_path max_size_bytes g acc of
              (g', r) \<Rightarrow> ((ext, fs0) # g', r))
      else (case process_key e output_path src_path max_size_bytes ext (sort fs0) acc of
              (acc', Some err) \<Rightarrow> ((ext, sort fs0) # g, acc', Some err)
            | (acc', None) \<Rightarrow>
                (case context_loop e output_path src_path max_size_bytes g acc' of
                   (g', r) \<Rightarrow> ((ext, sort fs0) # g', r))))"

text \<open>
  \<^verbatim>\<open>create_context_files\<close>: the dictionary after the call, the output area after
  the call, and the list returned or the error raised. The bound in bytes is
  \<^verbatim>\<open>max_size_mb * 1024 * 1024\<close>, a product that is exact for a finite float.
\<close>

definition create_context_files ::
  "env \<Rightarrow> (string \<times> path list) list \<Rightarrow> path \<Rightarrow> path \<Rightarrow> real \<Rightarrow> fs
     \<Rightarrow> (string \<times> path list) list \<times> fs \<times> (error + path list)" where
  "create_context_files e grouped_files output_path src_path max_size_mb d =
     (case context_loop e output_path src_path (max_size_mb * 1024 * 1024) grouped_files ([], d) of
        (g', (cf, d'), None) \<Rightarrow> (g', d', Inr cf)
      | (g', (cf, d'), Some err) \<Rightarrow> (g', d', Inl err))"

section \<open>The archive packer\<close>

text \<open>
  \<^verbatim>\<open>file_path.relative_to(src_path) if src_path else file_path.name\<close>
\<close>

definition arcname :: "path option \<Rightarrow> path \<Rightarrow> error + path" where
  "arcname src_path file_path =
     (case src_path of
        None \<Rightarrow> Inr [name file_path]
      | Some base \<Rightarrow> relative_to file_path base)"

text \<open>
  What \<^verbatim>\<open>zipf.write\<close> reads: a text file of the output area as it is on disk, any
  other file from the environment, where it is first asked for its size and then read.
\<close>

definition zip_read :: "env \<Rightarrow> fs \<Rightarrow> path \<Rightarrow> os_error + bytes" where
  "zip_read e d p =
     (case files d p of
        Some bs \<Rightarrow> Inr bs
      | None \<Rightarrow> (case stat_size e p of Inl err \<Rightarrow> Inl err | Inr n \<Rightarrow> read_bytes e p))"

definition add_member ::
  "env \<Rightarrow> fs \<Rightarrow> path option \<Rightarrow> path \<Rightarrow> (path \<times> path) list
     \<Rightarrow> (path \<times> path) list \<times> error option" where
  "add_member e d src_path file_path ms =
     (case arcname src_path file_path of
        Inl err \<Rightarrow> (ms, Some err)
      | Inr a \<Rightarrow>
          (case zip_read e d file_path of
             Inl err \<Rightarrow> (ms, Some (OSError err))
           | Inr bs \<Rightarrow> (ms @ [(file_path, a)], None)))"

text \<open>
  One archive, line 154 to 159. The \<^verbatim>\<open>with\<close> block closes the archive also when
  a member raises, so the archive is on disk with the members written so far.
\<close>

definition write_archive ::
  "env \<Rightarrow> path \<Rightarrow> string \<Rightarrow> path option \<Rightarrow> nat \<Rightarrow> path list \<Rightarrow> fs \<Rightarrow> fs \<times> error option" where
  "write_archive e output_path prefix src_path archive_num fs0 d =
     (case for_each (add_member e d src_path) fs0 [] of
        (ms, r) \<Rightarrow>
          (d\<lparr>zips := zips d @ [(output_path @ [prefix @ ''_'' @ str_nat archive_num @ ''.zip''], ms)]\<rparr>,
           r))"

text \<open>
  \<^verbatim>\<open>for i in range(0, len(files), chunk_size)\<close> for a positive step, with
  \<^verbatim>\<open>files[i:i + chunk_size]\<close> and \<^verbatim>\<open>(i // chunk_size) + 1\<close>.
\<close>

function archive_loop ::
  "env \<Rightarrow> path \<Rightarrow> string \<Rightarrow> path option \<Rightarrow> path list \<Rightarrow> nat \<Rightarrow> nat \<Rightarrow> fs \<Rightarrow> fs \<times> error option" where
  "archive_loop e output_path prefix src_path fs0 chunk_size i d =
     (if 0 < chunk_size \<and> i < length fs0
      then (case write_archive e output_path prefix src_path (i div chunk_size + 1)
                   (take chunk_size (drop i fs0)) d of
              (d', None) \<Rightarrow>
                archive_loop e output_path prefix src_path fs0 chunk_size (i + chunk_size) d'
            | (d', Some err) \<Rightarrow> (d', Some err))
      else (d, None))"
  by pat_completeness auto
termination
  by (relation "measure (\<lambda>(e, output_path, prefix, src_path, fs0, chunk_size, i, d). length fs0 - i)")
     auto

declare archive_loop.simps [simp del]

text \<open>
  \<^verbatim>\<open>create_archives\<close>: the list as the caller sees it after the call, the output
  area, and the error raised if any. The division of line 148 raises for a chunk
  size of zero, before the list is sorted; a negative step gives an empty range.
\<close>

definition create_archives ::
  "env \<Rightarrow> path list \<Rightarrow> path \<Rightarrow> int \<Rightarrow> string \<Rightarrow> path option \<Rightarrow> fs
     \<Rightarrow> path list \<times> fs \<times> error option" where
  "create_archives e fs0 output_path chunk_size prefix src_path d =
     (if fs0 = [] then (fs0, d, None)
      else if chunk_size = 0 then (fs0, d, Some ZeroDivisionError)
      else if chunk_size < 0 then (sort fs0, d, None)
      else (case archive_loop e output_path prefix src_path (sort fs0) (nat chunk_size) 0 d of
              (d', r) \<Rightarrow> (sort fs0, d', r)))"

section \<open>The orchestrator\<close>

datatype mode = Direct | Context

record args =
  combine :: bool
  mode :: mode
  size :: int
  max_size :: real

text \<open>\<^verbatim>\<open>temp_dir.rglob('*')\<close>: the entries below the scratch directory of an archive.\<close>

definition rglob :: "env \<Rightarrow> path \<Rightarrow> path list" where
  "rglob e jar_path = map ((@) (scratch e jar_path)) (entries e jar_path)"

text \<open>\<^verbatim>\<open>groups[ext].append(file_path)\<close> on a dictionary that keeps the order of insertion.\<close>

fun group_append :: "string \<Rightarrow> path \<Rightarrow> (string \<times> path list) list \<Rightarrow> (string \<times> path list) list" where
  "group_append k v [] = [(k, [v])]"
| "group_append k v ((k', vs) # g) =
     (if k = k' then (k', vs @ [v]) # g else (k', vs) # group_append k v g)"

definition group_files :: "env \<Rightarrow> path list \<Rightarrow> (string \<times> path list) list" where
  "group_files e ps =
     foldl (\<lambda>g file_path. if is_file e file_path then group_append (classify file_path) file_path g else g)
       [] ps"

subsection \<open>Combined mode\<close>

text \<open>The dictionary of the open bundles holds the file objects themselves.\<close>

record comb =
  open_files :: "(string \<times> handle) list"
  created_context_files :: "path list"
  cdisk :: fs

definition combined_header :: "string \<Rightarrow> string \<Rightarrow> codepoints" where
  "combined_header jar_name file_name =
     text_of (''\<newline>'' @ replicate 30 (CHR ''='') @ ''\<newline>=== SOURCE JAR: '' @ jar_name
              @ ''\<newline>=== FILE:       '' @ file_name @ ''\<newline>'' @ replicate 30 (CHR ''='')
              @ ''\<newline>\<newline>'')"

text \<open>\<^verbatim>\<open>open_files[ext].write(...)\<close>\<close>

definition write_handle :: "string \<Rightarrow> bytes \<Rightarrow> comb \<Rightarrow> comb" where
  "write_handle ext bs s =
     s\<lparr>open_files :=
         map (\<lambda>kh. if fst kh = ext then (fst kh, write_bytes bs (snd kh)) else kh) (open_files s)\<rparr>"

text \<open>One file, line 218 to 224: nothing is caught but the decoding error.\<close>

definition combined_file :: "env \<Rightarrow> path \<Rightarrow> string \<Rightarrow> path \<Rightarrow> comb \<Rightarrow> comb \<times> error option" where
  "combined_file e jar_path ext file_path s =
     (let s1 = write_handle ext
                 (utf8_encode (combined_header (name jar_path) (name file_path))) s
      in case read_content e file_path of
           Inl err \<Rightarrow> (s1, Some (OSError err))
         | Inr content \<Rightarrow> (write_handle ext (utf8_encode content) s1, None))"

text \<open>Opening the bundle of a key that has none yet, line 210 to 214.\<close>

definition combined_open :: "path \<Rightarrow> string \<Rightarrow> comb \<Rightarrow> comb" where
  "combined_open output_path ext s =
     (if ext \<in> fst ` set (open_files s) then s
      else (let p = output_path @ [strip_dot ext @ ''_context_1.txt'']
            in s\<lparr>open_files := open_files s @ [(ext, \<lparr>hpath = p, appending = True, pending = []\<rparr>)],
                  created_context_files :=
                    (if p \<in> set (created_context_files s) then created_context_files s
                     else created_context_files s @ [p]),
                  cdisk := open_append p (cdisk s)\<rparr>))"

text \<open>One key of one archive, line 206 to 224.\<close>

definition combined_key ::
  "env \<Rightarrow> path \<Rightarrow> path \<Rightarrow> string \<times> path list \<Rightarrow> comb \<Rightarrow> comb \<times> error option" where
  "combined_key e output_path jar_path kv s =
     (if fst kv \<in> set BINARY_EXTENSIONS then (s, None)
      else for_each (combined_file e jar_path (fst kv)) (sort (snd kv))
             (combined_open output_path (fst kv) s))"

text \<open>One archive, line 196 to 224: a failed extraction leaves everything as it is.\<close>

definition combined_jar :: "env \<Rightarrow> path \<Rightarrow> path \<Rightarrow> comb \<Rightarrow> comb \<times> error option" where
  "combined_jar e output_path jar_path s =
     (if decompile_ok e jar_path
      then for_each (combined_key e output_path jar_path) (group_files e (rglob e jar_path)) s
      else (s, None))"

text \<open>The \<^verbatim>\<open>finally\<close> block, line 225 to 228.\<close>

definition close_all :: "comb \<Rightarrow> fs" where
  "close_all s = fold close_file (map snd (open_files s)) (cdisk s)"

text \<open>
  Combined mode, line 179 to 230, on the archives that the input directory lists.
\<close>

definition main_combined ::
  "env \<Rightarrow> path \<Rightarrow> path \<Rightarrow> args \<Rightarrow> path list \<Rightarrow> fs \<Rightarrow> fs \<times> error option" where
  "main_combined e script_dir input_dir a jars d =
     (let jar_files = sort jars in
      if jar_files = [] then (d, None)
      else
        (let output_path = script_dir @ [''_decompiled_combined_'' @ name input_dir]
         in case for_each (combined_jar e output_path) jar_files
                   \<lparr>open_files = [], created_context_files = [], cdisk = mkdir output_path d\<rparr> of
              (s, Some err) \<Rightarrow> (close_all s, Some err)
            | (s, None) \<Rightarrow>
                snd (create_archives e (created_context_files s) output_path (size a)
                       ''combined_context'' None (close_all s))))"

subsection \<open>Individual mode\<close>

text \<open>One archive, line 234 to 253.\<close>

definition individual_jar :: "env \<Rightarrow> path \<Rightarrow> args \<Rightarrow> path \<Rightarrow> fs \<Rightarrow> fs \<times> error option" where
  "individual_jar e script_dir a jar_path d =
     (let output_path = script_dir @ [''_decompiled_'' @ stem jar_path];
          d1 = mkdir output_path d
      in if decompile_ok e jar_path
         then (case mode a of
                 Context \<Rightarrow>
                   (case create_context_files e (group_files e (rglob e jar_path)) output_path
                           (scratch e jar_path) (max_size a) d1 of
                      (g, d2, Inl err) \<Rightarrow> (d2, Some err)
                    | (g, d2, Inr cf) \<Rightarrow>
                        snd (create_archives e cf output_path (size a)
                               (''context_'' @ stem jar_path) None d2))
               | Direct \<Rightarrow>
                   snd (create_archives e (filter (is_file e) (rglob e jar_path)) output_path (size a)
                          (''direct_'' @ stem jar_path) (Some (scratch e jar_path)) d1))
         else (d1, None))"

definition main_individual ::
  "env \<Rightarrow> path \<Rightarrow> args \<Rightarrow> path list \<Rightarrow> fs \<Rightarrow> fs \<times> error option" where
  "main_individual e script_dir a jars d =
     (let jar_files = sort jars in
      if jar_files = [] then (d, None)
      else for_each (individual_jar e script_dir a) jar_files d)"

text \<open>\<^verbatim>\<open>main\<close> after the command line is read and the input directory listed.\<close>

definition main :: "env \<Rightarrow> path \<Rightarrow> path \<Rightarrow> args \<Rightarrow> path list \<Rightarrow> fs \<Rightarrow> fs \<times> error option" where
  "main e script_dir input_dir a jars d =
     (if combine a then main_combined e script_dir input_dir a jars d
      else main_individual e script_dir a jars d)"

section \<open>Concrete inputs\<close>

definition empty_fs :: fs where
  "empty_fs = \<lparr>dirs = {}, files = Map.empty, handles = [], zips = []\<rparr>"

definition default_args :: args where
  "default_args = \<lparr>combine = False, mode = Context, size = 10, max_size = 100\<rparr>"

text \<open>
  An extracted tree of two text files of which the first, \<^verbatim>\<open>a.txt\<close>, is listed and
  has a size but is gone when it is read.
\<close>

definition vanishing_env :: env where
  "vanishing_env =
     \<lparr>scratch = (\<lambda>j. [''tmp'']), decompile_ok = (\<lambda>j. True),
      entries = (\<lambda>j. [[''a.txt''], [''b.txt'']]), is_file = (\<lambda>p. True),
      stat_size = (\<lambda>p. Inr 2),
      read_bytes = (\<lambda>p. if name p = ''a.txt'' then Inl FileNotFoundError else Inr [104, 105])\<rparr>"

text \<open>An extracted tree in which every file has two bytes and can be read.\<close>

definition plain_env :: env where
  "plain_env =
     \<lparr>scratch = (\<lambda>j. [''tmp'']), decompile_ok = (\<lambda>j. True),
      entries = (\<lambda>j. [[''b.txt''], [''a.txt'']]), is_file = (\<lambda>p. True),
      stat_size = (\<lambda>p. Inr 2), read_bytes = (\<lambda>p. Inr [104, 105])\<rparr>"

text \<open>Three archives of which the second cannot be extracted.\<close>

definition failing_b_env :: env where
  "failing_b_env = plain_env\<lparr>decompile_ok := (\<lambda>j. j \<noteq> [''in'', ''b.jar''])\<rparr>"

text \<open>An output area that already holds a bundle from an earlier run.\<close>

definition prior_fs :: fs where
  "prior_fs =
     empty_fs\<lparr>dirs := {[''s'', ''_decompiled_combined_in'']},
              files := [[''s'', ''_decompiled_combined_in'', ''txt_context_1.txt''] \<mapsto> [1, 2, 3]]\<rparr>"

text \<open>
  An extracted tree whose files are not UTF-8: four bytes, the byte \<open>255\<close>, a line end
  and a letter.
\<close>

definition latin_env :: env where
  "latin_env =
     plain_env\<lparr>stat_size := (\<lambda>p. Inr 4), read_bytes := (\<lambda>p. Inr [255, 13, 10, 104])\<rparr>"

text \<open>A list of files of which \<^verbatim>\<open>gone.txt\<close> does not exist.\<close>

definition gone_env :: env where
  "gone_env =
     plain_env\<lparr>stat_size := (\<lambda>p. if name p = ''gone.txt'' then Inl FileNotFoundError else Inr 2),
               read_bytes := (\<lambda>p. if name p = ''gone.txt'' then Inl FileNotFoundError
                                   else Inr [104, 105])\<rparr>"


text \<open>
  Two archives: the tree of \<^verbatim>\<open>a.jar\<close> holds \<^verbatim>\<open>a.txt\<close>, which is gone when it is
  read, the tree of \<^verbatim>\<open>c.jar\<close> holds \<^verbatim>\<open>X.java\<close>.
\<close>

definition abort_env :: env where
  "abort_env =
     plain_env\<lparr>entries := (\<lambda>j. if j = [''in'', ''a.jar''] then [[''a.txt'']] else [[''X.java'']]),
               read_bytes := (\<lambda>p. if name p = ''a.txt'' then Inl FileNotFoundError
                                   else Inr [104, 105])\<rparr>"

section \<open>What the specification says of the packer\<close>

text \<open>
  The number of archives \<^verbatim>\<open>(len(files) + chunk_size - 1) // chunk_size\<close>, and the
  archive with index \<open>k + 1\<close>: its name and, as members, the \<open>k\<close>-th run of
  \<open>n\<close> consecutive files.
\<close>

definition num_archives :: "nat \<Rightarrow> nat \<Rightarrow> nat" where
  "num_archives len n = (len + n - 1) div n"

definition chunk :: "nat \<Rightarrow> nat \<Rightarrow> 'a list \<Rightarrow> 'a list" where
  "chunk n k xs = take n (drop (k * n) xs)"

definition chunk_archive ::
  "path \<Rightarrow> string \<Rightarrow> path option \<Rightarrow> path list \<Rightarrow> nat \<Rightarrow> nat \<Rightarrow> path \<times> (path \<times> path) list" where
  "chunk_archive output_path prefix src_path fs0 n k =
     (output_path @ [prefix @ ''_'' @ str_nat (k + 1) @ ''.zip''],
      map (\<lambda>f. (f, projr (arcname src_path f))) (chunk n k fs0))"

text \<open>The dictionary with the lists of its non-binary keys sorted.\<close>

definition sort_text_groups :: "(string \<times> path list) list \<Rightarrow> (string \<times> path list) list" where
  "sort_text_groups g =
     map (\<lambda>(ext, fs0). (ext, if ext \<in> set BINARY_EXTENSIONS then fs0 else sort fs0)) g"

section \<open>What the specification says of the bundles\<close>

text \<open>The files of a key that have a size, in order, each with its size.\<close>

definition sized :: "env \<Rightarrow> path list \<Rightarrow> (path \<times> nat) list" where
  "sized e fs0 =
     List.map_filter (\<lambda>f. case stat_size e f of Inr n \<Rightarrow> Some (f, n) | Inl err \<Rightarrow> None) fs0"

text \<open>
  The rule of the specification on what is done so far: the bundles already closed,
  the files of the bundle that is open (none when no bundle is open) and its running
  size. A new part is begun when a bundle is open, the running size plus the size of
  the file exceeds the bound and the running size is positive; otherwise the file
  joins the open bundle.
\<close>

fun split_step ::
  "real \<Rightarrow> (path \<times> nat) list list \<times> (path \<times> nat) list \<times> nat \<Rightarrow> path \<times> nat
     \<Rightarrow> (path \<times> nat) list list \<times> (path \<times> nat) list \<times> nat" where
  "split_step M (past, cur, sz) (f, n) =
     (if cur \<noteq> [] \<and> real (sz + n) > M \<and> 0 < sz
      then (past @ [cur], [(f, n)], n)
      else (past, cur @ [(f, n)], sz + n))"

fun all_parts :: "'a list list \<times> 'a list \<times> nat \<Rightarrow> 'a list list" where
  "all_parts (past, cur, sz) = (if cur = [] then past else past @ [cur])"

definition spec_bundles :: "real \<Rightarrow> (path \<times> nat) list \<Rightarrow> (path \<times> nat) list list" where
  "spec_bundles M xs = all_parts (foldl (split_step M) ([], [], 0) xs)"

text \<open>What one file adds to its bundle: its header, then its text, encoded.\<close>

definition file_record :: "env \<Rightarrow> path \<Rightarrow> path \<times> nat \<Rightarrow> bytes" where
  "file_record e src x =
     utf8_encode (header (projr (relative_to (fst x) src)))
     @ utf8_encode (projr (read_content e (fst x)))"

definition records :: "env \<Rightarrow> path \<Rightarrow> (path \<times> nat) list \<Rightarrow> bytes" where
  "records e src part = concat (map (file_record e src) part)"

text \<open>The output files once part \<open>i + 1\<close> holds the records of the \<open>i\<close>-th bundle.\<close>

definition bundle_files ::
  "(nat \<Rightarrow> path) \<Rightarrow> ('a list \<Rightarrow> bytes) \<Rightarrow> 'a list list \<Rightarrow> (path \<rightharpoonup> bytes) \<Rightarrow> (path \<rightharpoonup> bytes)" where
  "bundle_files bp rc parts m = foldl (\<lambda>m (i, part). m(bp (Suc i) \<mapsto> rc part)) m (enumerate 0 parts)"

text \<open>
  The state of the loop of the code that stands for a state of the rule: the closed
  bundles are on disk, the open bundle is an empty file on disk and its records are
  in its handle.
\<close>

definition agg_of ::
  "env \<Rightarrow> path \<Rightarrow> path \<Rightarrow> string \<Rightarrow> path list \<Rightarrow> fs
     \<Rightarrow> (path \<times> nat) list list \<times> (path \<times> nat) list \<times> nat \<Rightarrow> agg" where
  "agg_of e out src stem0 cf d a =
     \<lparr>part_num = Suc (length (fst a)),
      current_size = snd (snd a),
      outfile = (if fst (snd a) = [] then None
                 else Some \<lparr>hpath = bundle_path out stem0 (Suc (length (fst a))),
                            appending = False,
                            pending = records e src (fst (snd a))\<rparr>),
      context_files = cf @ map (bundle_path out stem0) [1 ..< Suc (length (all_parts a))],
      disk = d\<lparr>files :=
                 (if fst (snd a) = []
                  then bundle_files (bundle_path out stem0) (records e src) (fst a) (files d)
                  else (bundle_files (bundle_path out stem0) (records e src) (fst a) (files d))
                         (bundle_path out stem0 (Suc (length (fst a))) \<mapsto> [])),
               handles := (if fst (snd a) = [] then handles d
                           else bundle_path out stem0 (Suc (length (fst a))) # handles d)\<rparr>\<rparr>"

text \<open>
  A file is well behaved when its size query either reports that it is gone or gives
  a size, and in the latter case it lies under the source directory and can be read.
\<close>

definition well_behaved :: "env \<Rightarrow> path \<Rightarrow> path \<Rightarrow> bool" where
  "well_behaved e src f \<longleftrightarrow>
     (case stat_size e f of
        Inl err \<Rightarrow> err = FileNotFoundError
      | Inr n \<Rightarrow> (\<exists>rel. relative_to f src = Inr rel) \<and> (\<exists>bs. read_bytes e f = Inr bs))"

text \<open>The value of a decimal digit.\<close>

definition digit_val :: "char \<Rightarrow> nat" where
  "digit_val c = of_char c - 48"






section \<open>Evaluation\<close>

lemmas eval_defs =
  create_context_files_def BINARY_EXTENSIONS_def process_key_def process_file_def
  rollover_def ensure_open_def append_file_def read_content_def latin1_decode_def
  bundle_path_def strip_dot_def open_write_def open_append_def write_bytes_def close_file_def
  flushed_def write_handle_def zip_read_def
  mkdir_def str_nat.simps Let_def main_combined_def combined_jar_def combined_key_def
  combined_open_def combined_file_def close_all_def group_files_def rglob_def classify_def
  suffix_def stem_def lower_def lower_char_def upper_chars_def lower_chars_def
  main_individual_def individual_jar_def
  create_archives_def archive_loop.simps write_archive_def add_member_def arcname_def main_def

section \<open>Release of the bundle handles\<close>

text \<open>
  C5. Individual mode has no cleanup around the loop of \<^verbatim>\<open>create_context_files\<close>:
  when reading \<^verbatim>\<open>a.txt\<close> raises after its bundle was opened, the call ends with
  the error and the handle of \<^verbatim>\<open>txt_context_1.txt\<close> is still open. Combined mode,
  on the same tree, ends with the same error and no handle open.
\<close>

theorem individual_bundle_left_open:
  "snd (snd (create_context_files vanishing_env
               [(''.txt'', [[''tmp'', ''a.txt''], [''tmp'', ''b.txt'']])] [''out''] [''tmp''] 100 empty_fs))
     = Inl (OSError FileNotFoundError)
   \<and> handles (fst (snd (create_context_files vanishing_env
               [(''.txt'', [[''tmp'', ''a.txt''], [''tmp'', ''b.txt'']])] [''out''] [''tmp''] 100 empty_fs)))
     = [[''out'', ''txt_context_1.txt'']]
   \<and> handles (fst (main_combined vanishing_env [''s''] [''in''] default_args [[''in'', ''a.jar'']] empty_fs))
     = []"
  by (simp add: eval_defs vanishing_env_def empty_fs_def default_args_def)

section \<open>Files that vanish\<close>

text \<open>
  C7. Combined mode never asks for the size of a file and catches nothing but the
  decoding error around the read: when \<^verbatim>\<open>a.txt\<close> is gone, the run ends with
  \<^verbatim>\<open>FileNotFoundError\<close>; the bundle holds the header of \<^verbatim>\<open>a.txt\<close> alone, the
  record of \<^verbatim>\<open>b.txt\<close> is never written and no archive is packed.
\<close>

theorem combined_missing_file_aborts:
  "snd (main_combined vanishing_env [''s''] [''in''] default_args [[''in'', ''a.jar'']] empty_fs)
     = Some (OSError FileNotFoundError)
   \<and> files (fst (main_combined vanishing_env [''s''] [''in''] default_args [[''in'', ''a.jar'']] empty_fs))
        [''s'', ''_decompiled_combined_in'', ''txt_context_1.txt'']
     = Some (utf8_encode (combined_header ''a.jar'' ''a.txt''))
   \<and> zips (fst (main_combined vanishing_env [''s''] [''in''] default_args [[''in'', ''a.jar'']] empty_fs))
     = []"
  by (simp add: eval_defs vanishing_env_def empty_fs_def default_args_def)

section \<open>The archive packer: chunks\<close>

lemma add_members_ok:
  "\<forall>f\<in>set fs0. (\<exists>a. arcname src f = Inr a) \<and> (\<exists>bs. zip_read e d f = Inr bs) \<Longrightarrow>
   for_each (add_member e d src) fs0 ms = (ms @ map (\<lambda>f. (f, projr (arcname src f))) fs0, None)"
  by (induction fs0 arbitrary: ms) (auto simp: add_member_def)

lemma write_archive_ok:
  "\<forall>f\<in>set fs0. (\<exists>a. arcname src f = Inr a) \<and> (\<exists>bs. zip_read e d f = Inr bs) \<Longrightarrow>
   write_archive e out prefix src num fs0 d =
     (d\<lparr>zips := zips d @ [(out @ [prefix @ ''_'' @ str_nat num @ ''.zip''],
                            map (\<lambda>f. (f, projr (arcname src f))) fs0)]\<rparr>, None)"
  by (simp add: write_archive_def add_members_ok)

lemma zip_read_files: "files d' = files d \<Longrightarrow> zip_read e d' f = zip_read e d f"
  by (simp add: zip_read_def)

lemma lt_num_archives: "0 < n \<Longrightarrow> k * n < len \<longleftrightarrow> k < num_archives len n"
proof -
  assume n: "0 < n"
  have "k < num_archives len n \<longleftrightarrow> Suc k \<le> (len + n - 1) div n"
    by (simp add: num_archives_def Suc_le_eq)
  also have "\<dots> \<longleftrightarrow> Suc k * n \<le> len + n - 1"
    using n by (simp add: less_eq_div_iff_mult_less_eq)
  also have "\<dots> \<longleftrightarrow> k * n < len" using n by auto
  finally show ?thesis by simp
qed

lemma archive_loop_run:
  assumes n: "0 < n"
    and ok: "\<forall>f\<in>set fs0. (\<exists>a. arcname src f = Inr a) \<and> (\<exists>bs. zip_read e d0 f = Inr bs)"
  shows "files d = files d0 \<Longrightarrow>
         archive_loop e out prefix src fs0 n (k * n) d =
           (d\<lparr>zips := zips d @ map (chunk_archive out prefix src fs0 n)
                                   [k ..< num_archives (length fs0) n]\<rparr>, None)"
proof (induction "num_archives (length fs0) n - k" arbitrary: k d)
  case 0
  then have "\<not> k * n < length fs0" using lt_num_archives [OF n] by simp
  with 0 show ?case by (simp add: archive_loop.simps)
next
  case (Suc m)
  then have lt: "k < num_archives (length fs0) n" by simp
  then have run: "k * n < length fs0" using lt_num_archives [OF n] by simp
  have "\<forall>f\<in>set (take n (drop (k * n) fs0)).
          (\<exists>a. arcname src f = Inr a) \<and> (\<exists>bs. zip_read e d0 f = Inr bs)"
    using ok by (meson in_set_dropD in_set_takeD)
  then have okc: "\<forall>f\<in>set (take n (drop (k * n) fs0)).
          (\<exists>a. arcname src f = Inr a) \<and> (\<exists>bs. zip_read e d f = Inr bs)"
    by (simp add: zip_read_files [OF Suc.prems])
  have m: "m = num_archives (length fs0) n - Suc k" using Suc.hyps(2) by simp
  have step: "k * n + n = Suc k * n" by simp
  have fl: "files (d\<lparr>zips := z\<rparr>) = files d0" for z using Suc.prems by simp
  show ?case
    apply (subst archive_loop.simps)
    apply (simp only: step)
    using n run lt Suc.hyps(1) [OF m fl]
    by (simp add: write_archive_ok [OF okc] chunk_archive_def chunk_def upt_conv_Cons del: mult_Suc)
qed

lemma concat_chunks_take: "concat (map (\<lambda>k. chunk n k xs) [0..<m]) = take (m * n) xs"
proof (induction m)
  case 0
  show ?case by simp
next
  case (Suc m)
  have "take (Suc m * n) xs = take (m * n + n) xs" by (simp add: add.commute)
  also have "\<dots> = take (m * n) xs @ take n (drop (m * n) xs)" by (rule take_add)
  finally show ?case using Suc by (simp add: chunk_def)
qed

lemma concat_chunks:
  assumes "0 < n"
  shows "concat (map (\<lambda>k. chunk n k xs) [0..<num_archives (length xs) n]) = xs"
proof -
  have "\<not> num_archives (length xs) n * n < length xs"
    using lt_num_archives [OF assms, of "num_archives (length xs) n" "length xs"] by simp
  then show ?thesis by (simp add: concat_chunks_take)
qed

lemma chunk_length:
  assumes "0 < n" "k < num_archives (length xs) n"
  shows "length (chunk n k xs) \<le> n"
    and "0 < length (chunk n k xs)"
    and "Suc k < num_archives (length xs) n \<Longrightarrow> length (chunk n k xs) = n"
proof -
  show "length (chunk n k xs) \<le> n" by (simp add: chunk_def)
  have "k * n < length xs" using assms lt_num_archives by blast
  then show "0 < length (chunk n k xs)" using assms by (simp add: chunk_def)
  assume "Suc k < num_archives (length xs) n"
  then have "Suc k * n < length xs" using assms(1) lt_num_archives by blast
  then show "length (chunk n k xs) = n" by (simp add: chunk_def)
qed

lemma neg_div_ceil: "0 < (b::int) \<Longrightarrow> - (- a div b) = (a + b - 1) div b"
proof -
  assume b: "0 < b"
  have m: "0 \<le> a mod b" "a mod b < b" using b by simp_all
  have e: "b * (a div b) = a - a mod b" by (simp add: minus_mod_eq_mult_div)
  show ?thesis
  proof (cases "a mod b = 0")
    case True
    have "a + b - 1 = b * (a div b) + (b - 1)" using e True by linarith
    then have "(a + b - 1) div b = a div b"
      using b by (intro int_div_pos_eq [where r = "b - 1"]) auto
    then show ?thesis using True b by (simp add: zdiv_zminus1_eq_if)
  next
    case False
    have "a + b - 1 = b * (a div b + 1) + (a mod b - 1)" using e by (simp add: algebra_simps)
    then have "(a + b - 1) div b = a div b + 1"
      using b m False by (intro int_div_pos_eq [where r = "a mod b - 1"]) auto
    then show ?thesis using False b by (simp add: zdiv_zminus1_eq_if)
  qed
qed

lemma num_archives_ceiling:
  assumes "0 < n"
  shows "int (num_archives len n) = \<lceil>real len / real n\<rceil>"
proof -
  have "\<lceil>real len / real n\<rceil> = \<lceil>of_int (int len) / (of_int (int n) :: real)\<rceil>" by simp
  also have "\<dots> = - (- int len div int n)" by (rule ceiling_divide_eq_div)
  also have "\<dots> = (int len + int n - 1) div int n"
    using assms neg_div_ceil by simp
  also have "\<dots> = int (num_archives len n)"
    using assms by (simp add: num_archives_def zdiv_int of_nat_diff)
  finally show ?thesis by simp
qed

lemma create_archives_run:
  assumes "1 \<le> chunk_size"
    and "\<forall>f\<in>set fs0. (\<exists>a. arcname src_path f = Inr a) \<and> (\<exists>bs. zip_read e d f = Inr bs)"
  shows "create_archives e fs0 output_path chunk_size prefix src_path d =
           (sort fs0,
            d\<lparr>zips := zips d @
                 map (chunk_archive output_path prefix src_path (sort fs0) (nat chunk_size))
                   [0 ..< num_archives (length fs0) (nat chunk_size)]\<rparr>,
            None)"
proof (cases "fs0 = []")
  case True
  have "(nat chunk_size - Suc 0) div nat chunk_size = 0" using assms(1) by simp
  then show ?thesis using True by (simp add: create_archives_def num_archives_def)
next
  case False
  have n: "0 < nat chunk_size" using assms(1) by simp
  have ok: "\<forall>f\<in>set (sort fs0). (\<exists>a. arcname src_path f = Inr a) \<and> (\<exists>bs. zip_read e d f = Inr bs)"
    using assms(2) by simp
  show ?thesis
    using assms(1) False archive_loop_run [OF n ok, of d output_path prefix 0]
    by (simp add: create_archives_def)
qed

text \<open>
  C3, as amended. For a chunk size of at least one and a list of files, each of which
  has an archive name (it lies under the base directory when one is given) and can be
  read when it is added, the packer sorts the list and writes, after the archives
  already there, the archives \<open>1\<close> to \<open>\<lceil>len / chunk_size\<rceil>\<close>, the \<open>k\<close>-th named
  \<^verbatim>\<open><prefix>_<k>.zip\<close> and holding the \<open>k\<close>-th run of the sorted list; the runs
  put one after the other are the sorted list, which is a permutation of the input;
  no run is empty or longer than the chunk size and only the last may be shorter.
  For an empty list nothing is written, whatever the chunk size.
\<close>

theorem create_archives_partition:
  assumes "1 \<le> chunk_size"
    and "\<forall>f\<in>set fs0. \<exists>a. arcname src_path f = Inr a"
    and "\<forall>f\<in>set fs0. \<exists>bs. zip_read e d f = Inr bs"
  shows "create_archives e fs0 output_path chunk_size prefix src_path d =
           (sort fs0,
            d\<lparr>zips := zips d @
                 map (chunk_archive output_path prefix src_path (sort fs0) (nat chunk_size))
                   [0 ..< num_archives (length fs0) (nat chunk_size)]\<rparr>,
            None)
         \<and> int (num_archives (length fs0) (nat chunk_size))
             = \<lceil>real (length fs0) / real_of_int chunk_size\<rceil>
         \<and> concat (map (\<lambda>k. chunk (nat chunk_size) k (sort fs0))
                     [0 ..< num_archives (length fs0) (nat chunk_size)]) = sort fs0
         \<and> mset (sort fs0) = mset fs0
         \<and> (\<forall>k < num_archives (length fs0) (nat chunk_size).
               0 < length (chunk (nat chunk_size) k (sort fs0))
               \<and> length (chunk (nat chunk_size) k (sort fs0)) \<le> nat chunk_size
               \<and> (Suc k < num_archives (length fs0) (nat chunk_size) \<longrightarrow>
                    length (chunk (nat chunk_size) k (sort fs0)) = nat chunk_size))
         \<and> create_archives e' [] output_path chunk_size' prefix src_path d = ([], d, None)"
proof -
  have n: "0 < nat chunk_size" using assms(1) by simp
  have 1: "create_archives e fs0 output_path chunk_size prefix src_path d =
           (sort fs0,
            d\<lparr>zips := zips d @
                 map (chunk_archive output_path prefix src_path (sort fs0) (nat chunk_size))
                   [0 ..< num_archives (length fs0) (nat chunk_size)]\<rparr>,
            None)"
    using assms by (intro create_archives_run) simp_all
  have 2: "int (num_archives (length fs0) (nat chunk_size))
             = \<lceil>real (length fs0) / real_of_int chunk_size\<rceil>"
    using num_archives_ceiling [OF n, of "length fs0"] assms(1) by simp
  have 3: "concat (map (\<lambda>k. chunk (nat chunk_size) k (sort fs0))
                     [0 ..< num_archives (length fs0) (nat chunk_size)]) = sort fs0"
    using concat_chunks [OF n, of "sort fs0"] by simp
  have 4: "\<forall>k < num_archives (length fs0) (nat chunk_size).
               0 < length (chunk (nat chunk_size) k (sort fs0))
               \<and> length (chunk (nat chunk_size) k (sort fs0)) \<le> nat chunk_size
               \<and> (Suc k < num_archives (length fs0) (nat chunk_size) \<longrightarrow>
                    length (chunk (nat chunk_size) k (sort fs0)) = nat chunk_size)"
    using chunk_length [OF n, of _ "sort fs0"] by simp
  have 5: "create_archives e' [] output_path chunk_size' prefix src_path d = ([], d, None)"
    by (simp add: create_archives_def)
  from 1 2 3 4 5 show ?thesis by simp
qed

text \<open>Three files in chunks of two: two archives, of two files and of one.\<close>

theorem create_archives_partition_witness:
  "create_archives plain_env [[''o'', ''c.txt''], [''o'', ''a.txt''], [''o'', ''b.txt'']]
       [''o''] 2 ''p'' None empty_fs =
     ([[''o'', ''a.txt''], [''o'', ''b.txt''], [''o'', ''c.txt'']],
      empty_fs\<lparr>zips :=
        [([''o'', ''p_1.zip''], [([''o'', ''a.txt''], [''a.txt'']), ([''o'', ''b.txt''], [''b.txt''])]),
         ([''o'', ''p_2.zip''], [([''o'', ''c.txt''], [''c.txt''])])]\<rparr>,
      None)"
  using create_archives_partition
          [where chunk_size = 2 and ?fs0.0 = "[[''o'', ''c.txt''], [''o'', ''a.txt''], [''o'', ''b.txt'']]"
             and src_path = None and e = plain_env and d = empty_fs
             and output_path = "[''o'']" and prefix = "''p''"]
  by (simp add: arcname_def zip_read_def plain_env_def chunk_archive_def chunk_def
        num_archives_def empty_fs_def str_nat.simps upt_conv_Cons)

text \<open>
  The claim as it stands fails. The command line accepts a chunk size that is not
  positive: with \<open>-2\<close> the range of the loop is empty and no archive is written for
  three files; with \<open>0\<close> the division raises. A file that is not there when it is
  added raises in the middle of its archive: of \<^verbatim>\<open>gone.txt\<close> and \<^verbatim>\<open>a.txt\<close> only
  \<^verbatim>\<open>a.txt\<close> is archived, and an archive after it would not be written. A file that
  is not under the base directory raises before anything is archived.
\<close>

theorem create_archives_not_total:
  "zips (fst (snd (create_archives plain_env
                     [[''o'', ''c.txt''], [''o'', ''a.txt''], [''o'', ''b.txt'']]
                     [''o''] (- 2) ''p'' None empty_fs))) = []
   \<and> snd (snd (create_archives plain_env
                     [[''o'', ''c.txt''], [''o'', ''a.txt''], [''o'', ''b.txt'']]
                     [''o''] (- 2) ''p'' None empty_fs)) = None
   \<and> snd (snd (create_archives plain_env
                     [[''o'', ''c.txt''], [''o'', ''a.txt''], [''o'', ''b.txt'']]
                     [''o''] 0 ''p'' None empty_fs)) = Some ZeroDivisionError
   \<and> create_archives gone_env [[''o'', ''gone.txt''], [''o'', ''a.txt''], [''o'', ''z.txt'']]
                     [''o''] 2 ''p'' None empty_fs
       = ([[''o'', ''a.txt''], [''o'', ''gone.txt''], [''o'', ''z.txt'']],
          empty_fs\<lparr>zips := [([''o'', ''p_1.zip''], [([''o'', ''a.txt''], [''a.txt''])])]\<rparr>,
          Some (OSError FileNotFoundError))
   \<and> create_archives plain_env [[''o'', ''a.txt'']] [''o''] 2 ''p'' (Some [''base'']) empty_fs
       = ([[''o'', ''a.txt'']],
          empty_fs\<lparr>zips := [([''o'', ''p_1.zip''], [])]\<rparr>,
          Some ValueError)"
  by (simp add: create_archives_def archive_loop.simps write_archive_def add_member_def
        arcname_def zip_read_def gone_env_def plain_env_def empty_fs_def str_nat.simps)

section \<open>Sorting in place\<close>

lemma context_loop_sorts:
  "context_loop e out src m g acc = (g', acc', None) \<Longrightarrow> g' = sort_text_groups g"
  by (induction g arbitrary: acc g' acc')
     (auto simp: sort_text_groups_def split: if_splits prod.splits option.splits)

text \<open>
  C9, as amended. The packer leaves the caller's list sorted whenever the chunk size
  is not zero, and the aggregator, when it returns, leaves the list of every
  non-binary key sorted and the list of every binary key as it was.
\<close>

theorem lists_sorted_in_place:
  "(chunk_size \<noteq> 0 \<longrightarrow>
      fst (create_archives e fs0 output_path chunk_size prefix src_path d) = sort fs0)
   \<and> (snd (snd (create_context_files e g out src max_size_mb d0)) = Inr cf \<longrightarrow>
        fst (create_context_files e g out src max_size_mb d0) = sort_text_groups g)"
  by (auto simp: create_archives_def create_context_files_def
           split: prod.splits option.splits dest: context_loop_sorts)

theorem lists_sorted_in_place_witness:
  "fst (create_archives plain_env [[''o'', ''c.txt''], [''o'', ''a.txt'']] [''o''] 2 ''p'' None empty_fs)
     = [[''o'', ''a.txt''], [''o'', ''c.txt'']]
   \<and> fst (create_context_files plain_env
             [(''.txt'', [[''tmp'', ''b.txt''], [''tmp'', ''a.txt'']]),
              (''.png'', [[''tmp'', ''z.png''], [''tmp'', ''y.png'']])] [''out''] [''tmp''] 100 empty_fs)
     = [(''.txt'', [[''tmp'', ''a.txt''], [''tmp'', ''b.txt'']]),
        (''.png'', [[''tmp'', ''z.png''], [''tmp'', ''y.png'']])]"
proof -
  have r: "snd (snd (create_context_files plain_env
             [(''.txt'', [[''tmp'', ''b.txt''], [''tmp'', ''a.txt'']]),
              (''.png'', [[''tmp'', ''z.png''], [''tmp'', ''y.png'']])] [''out''] [''tmp''] 100 empty_fs))
           = Inr [[''out'', ''txt_context_1.txt'']]"
    by (simp add: eval_defs plain_env_def empty_fs_def)
  show ?thesis
    using r lists_sorted_in_place
            [where chunk_size = 2 and ?fs0.0 = "[[''o'', ''c.txt''], [''o'', ''a.txt'']]"
               and output_path = "[''o'']" and prefix = "''p''" and src_path = None
               and d = empty_fs and e = plain_env
               and g = "[(''.txt'', [[''tmp'', ''b.txt''], [''tmp'', ''a.txt'']]),
                         (''.png'', [[''tmp'', ''z.png''], [''tmp'', ''y.png'']])]"
               and out = "[''out'']" and src = "[''tmp'']" and max_size_mb = 100
               and ?d0.0 = empty_fs and cf = "[[''out'', ''txt_context_1.txt'']]"]
    by (simp add: sort_text_groups_def BINARY_EXTENSIONS_def)
qed

text \<open>
  The claim as it stands fails: the list of a binary key is skipped before the sort,
  and a chunk size of zero raises before the sort.
\<close>

theorem binary_list_not_sorted:
  "fst (create_context_files plain_env [(''.png'', [[''tmp'', ''z.png''], [''tmp'', ''y.png'']])]
          [''out''] [''tmp''] 100 empty_fs)
     = [(''.png'', [[''tmp'', ''z.png''], [''tmp'', ''y.png'']])]
   \<and> \<not> sorted [[''tmp'', ''z.png''], [''tmp'', ''y.png'']]
   \<and> fst (create_archives plain_env [[''o'', ''c.txt''], [''o'', ''a.txt'']] [''o''] 0 ''p'' None empty_fs)
     = [[''o'', ''c.txt''], [''o'', ''a.txt'']]
   \<and> \<not> sorted [[''o'', ''c.txt''], [''o'', ''a.txt'']]"
  by (simp add: eval_defs plain_env_def empty_fs_def)

section \<open>Failed extractions\<close>

lemma for_each_append:
  "for_each f (xs @ ys) s =
     (case for_each f xs s of (s1, None) \<Rightarrow> for_each f ys s1 | (s1, Some err) \<Rightarrow> (s1, Some err))"
  by (induction xs arbitrary: s) (auto split: prod.splits option.splits)

lemma for_each_skip:
  "(\<And>s. f j s = (s, None)) \<Longrightarrow>
   for_each f (before @ j # after) s = for_each f (before @ after) s"
  by (simp add: for_each_append split: prod.splits option.splits)

lemma combined_jar_failed: "\<not> decompile_ok e j \<Longrightarrow> combined_jar e out j s = (s, None)"
  by (simp add: combined_jar_def)

lemma individual_jar_failed:
  "\<not> decompile_ok e j \<Longrightarrow>
   individual_jar e sd a j d = (mkdir (sd @ [''_decompiled_'' @ stem j]) d, None)"
  by (simp add: individual_jar_def)

text \<open>
  C8. When the extraction of an archive \<open>j\<close> reports failure, its step does nothing
  in Combined mode and only makes its output directory in Individual mode, without an
  error; and the run over the sorted archives goes on with those after it: in
  Individual mode from the state the archives before it left, in Combined mode as if
  \<open>j\<close> had not been listed.
\<close>

theorem failed_extraction_skipped:
  assumes "\<not> decompile_ok e j" and "sort jars = before @ j # after"
  shows "combined_jar e out j s = (s, None)
       \<and> individual_jar e script_dir a j d = (mkdir (script_dir @ [''_decompiled_'' @ stem j]) d, None)
       \<and> main_individual e script_dir a jars d =
           (case for_each (individual_jar e script_dir a) before d of
              (d1, None) \<Rightarrow>
                for_each (individual_jar e script_dir a) after
                  (mkdir (script_dir @ [''_decompiled_'' @ stem j]) d1)
            | (d1, Some err) \<Rightarrow> (d1, Some err))
       \<and> main_combined e script_dir input_dir a jars d =
           (case for_each (combined_jar e (script_dir @ [''_decompiled_combined_'' @ name input_dir]))
                   (before @ after)
                   \<lparr>open_files = [], created_context_files = [],
                    cdisk = mkdir (script_dir @ [''_decompiled_combined_'' @ name input_dir]) d\<rparr> of
              (s', Some err) \<Rightarrow> (close_all s', Some err)
            | (s', None) \<Rightarrow>
                snd (create_archives e (created_context_files s')
                       (script_dir @ [''_decompiled_combined_'' @ name input_dir]) (size a)
                       ''combined_context'' None (close_all s')))"
proof -
  define out' where "out' = script_dir @ [''_decompiled_combined_'' @ name input_dir]"
  have 1: "main_individual e script_dir a jars d =
           (case for_each (individual_jar e script_dir a) before d of
              (d1, None) \<Rightarrow>
                for_each (individual_jar e script_dir a) after
                  (mkdir (script_dir @ [''_decompiled_'' @ stem j]) d1)
            | (d1, Some err) \<Rightarrow> (d1, Some err))"
    using assms(2) individual_jar_failed [OF assms(1), of script_dir a]
    by (simp add: main_individual_def for_each_append split: prod.splits option.splits)
  have "for_each (combined_jar e out') (before @ j # after) s0
        = for_each (combined_jar e out') (before @ after) s0" for s0
    by (rule for_each_skip) (simp add: combined_jar_failed [OF assms(1)])
  then have 2: "main_combined e script_dir input_dir a jars d =
           (case for_each (combined_jar e out') (before @ after)
                   \<lparr>open_files = [], created_context_files = [], cdisk = mkdir out' d\<rparr> of
              (s', Some err) \<Rightarrow> (close_all s', Some err)
            | (s', None) \<Rightarrow>
                snd (create_archives e (created_context_files s') out' (size a)
                       ''combined_context'' None (close_all s')))"
    using assms(2) unfolding main_combined_def out'_def [symmetric] by (simp add: Let_def)
  show ?thesis
    using assms(1) 1 2 unfolding out'_def
    by (simp add: combined_jar_failed individual_jar_failed)
qed

theorem failed_extraction_skipped_witness:
  "\<not> decompile_ok failing_b_env [''in'', ''b.jar'']
   \<and> sort [[''in'', ''c.jar''], [''in'', ''b.jar''], [''in'', ''a.jar'']]
       = [[''in'', ''a.jar'']] @ [''in'', ''b.jar''] # [[''in'', ''c.jar'']]
   \<and> snd (main_individual failing_b_env [''s''] default_args
             [[''in'', ''c.jar''], [''in'', ''b.jar''], [''in'', ''a.jar'']] empty_fs) = None
   \<and> map fst (zips (fst (main_individual failing_b_env [''s''] default_args
             [[''in'', ''c.jar''], [''in'', ''b.jar''], [''in'', ''a.jar'']] empty_fs)))
       = [[''s'', ''_decompiled_a'', ''context_a_1.zip''], [''s'', ''_decompiled_c'', ''context_c_1.zip'']]
   \<and> snd (main_combined failing_b_env [''s''] [''in''] default_args
             [[''in'', ''c.jar''], [''in'', ''b.jar''], [''in'', ''a.jar'']] empty_fs) = None"
  using failed_extraction_skipped
          [where e = failing_b_env and j = "[''in'', ''b.jar'']"
             and jars = "[[''in'', ''c.jar''], [''in'', ''b.jar''], [''in'', ''a.jar'']]"
             and before = "[[''in'', ''a.jar'']]" and after = "[[''in'', ''c.jar'']]"
             and out = "[''o'']" and s = "\<lparr>open_files = [], created_context_files = [], cdisk = empty_fs\<rparr>"
             and script_dir = "[''s'']" and a = default_args and d = empty_fs
             and input_dir = "[''in'']"]
  by (simp add: eval_defs failing_b_env_def plain_env_def empty_fs_def default_args_def)

section \<open>Files that are not UTF-8\<close>

lemma outfile_ensure_open: "\<exists>h. outfile (ensure_open out stem0 s) = Some h"
  by (cases "outfile s") (simp_all add: ensure_open_def Let_def)

lemma read_content_fallback:
  "read_bytes e p = Inr bs \<Longrightarrow> utf8_decode bs = None \<Longrightarrow>
   read_content e p = Inr (universal_newlines (latin1_decode bs))"
  by (simp add: read_content_def)

lemma universal_newlines_bound:
  "\<forall>c\<in>set t. c < 256 \<Longrightarrow> \<forall>c\<in>set (universal_newlines t). c < 256"
  by (induction t rule: universal_newlines.induct) auto

lemma utf8_decode_ascii:
  "b < 128 \<Longrightarrow> utf8_decode (b # r) = map_option ((#) b) (utf8_decode r)"
  by simp

lemma utf8_decode_two:
  "194 \<le> b \<Longrightarrow> b < 224 \<Longrightarrow> cont c1 \<Longrightarrow>
   utf8_decode (b # c1 # r) = map_option ((#) ((b - 192) * 64 + (c1 - 128))) (utf8_decode r)"
  by simp

lemma utf8_roundtrip_latin1:
  "\<forall>c\<in>set t. c < 256 \<Longrightarrow> utf8_decode (utf8_encode t) = Some t"
proof (induction t)
  case Nil
  show ?case by (simp add: utf8_encode_def)
next
  case (Cons c t)
  then have ih: "utf8_decode (utf8_encode t) = Some t" and c: "c < 256" by simp_all
  show ?case
  proof (cases "c < 128")
    case True
    then have "utf8_encode (c # t) = c # utf8_encode t"
      by (simp add: utf8_encode_def utf8_encode_cp_def)
    then show ?thesis using True ih by (simp only: utf8_decode_ascii option.map)
  next
    case False
    have e: "utf8_encode (c # t) = (192 + c div 64) # (128 + c mod 64) # utf8_encode t"
      using False c by (simp add: utf8_encode_def utf8_encode_cp_def)
    have d: "194 \<le> 192 + c div 64" "192 + c div 64 < 224" using False c by simp_all
    have k: "cont (128 + c mod 64)" by (simp add: cont_def)
    have m: "(192 + c div 64 - 192) * 64 + (128 + c mod 64 - 128) = c" by simp
    show ?thesis
      unfolding e utf8_decode_two [OF d k] m using ih by simp
  qed
qed

text \<open>
  C6. When the bytes of a file do not decode as UTF-8, reading it gives its Latin-1
  text (with the line ends of text mode) and no error; the step of Individual mode
  (for a file with a size, under the source directory) and the step of Combined mode
  write the header and that text through the handle of the bundle and end normally;
  and the bytes written decode back to the whole text, so nothing of the file is
  dropped.
\<close>

theorem decode_fallback:
  assumes "read_bytes e p = Inr bs" and "utf8_decode bs = None"
  shows "read_content e p = Inr (universal_newlines (latin1_decode bs))
       \<and> (stat_size e p = Inr sz \<longrightarrow> relative_to p src = Inr rel \<longrightarrow>
            (\<exists>h. outfile (ensure_open out stem0 (rollover m sz s)) = Some h
               \<and> process_file e out src m stem0 p s =
                   ((ensure_open out stem0 (rollover m sz s))
                      \<lparr>outfile := Some (write_bytes (utf8_encode (universal_newlines (latin1_decode bs)))
                                         (write_bytes (utf8_encode (header rel)) h)),
                       current_size := current_size (ensure_open out stem0 (rollover m sz s)) + sz\<rparr>,
                    None)))
       \<and> combined_file e jar ext p c =
           (write_handle ext (utf8_encode (universal_newlines (latin1_decode bs)))
              (write_handle ext (utf8_encode (combined_header (name jar) (name p))) c),
            None)
       \<and> ((\<forall>b\<in>set bs. b < 256) \<longrightarrow>
            utf8_decode (utf8_encode (universal_newlines (latin1_decode bs)))
              = Some (universal_newlines bs))"
proof -
  have r: "read_content e p = Inr (universal_newlines (latin1_decode bs))"
    using assms by (rule read_content_fallback)
  obtain h where h: "outfile (ensure_open out stem0 (rollover m sz s)) = Some h"
    using outfile_ensure_open by blast
  have i: "stat_size e p = Inr sz \<longrightarrow> relative_to p src = Inr rel \<longrightarrow>
            (\<exists>h. outfile (ensure_open out stem0 (rollover m sz s)) = Some h
               \<and> process_file e out src m stem0 p s =
                   ((ensure_open out stem0 (rollover m sz s))
                      \<lparr>outfile := Some (write_bytes (utf8_encode (universal_newlines (latin1_decode bs)))
                                         (write_bytes (utf8_encode (header rel)) h)),
                       current_size := current_size (ensure_open out stem0 (rollover m sz s)) + sz\<rparr>,
                    None))"
    using h r by (simp add: process_file_def append_file_def Let_def)
  have c: "combined_file e jar ext p c =
           (write_handle ext (utf8_encode (universal_newlines (latin1_decode bs)))
              (write_handle ext (utf8_encode (combined_header (name jar) (name p))) c),
            None)"
    using r by (simp add: combined_file_def Let_def)
  have l: "(\<forall>b\<in>set bs. b < 256) \<longrightarrow>
            utf8_decode (utf8_encode (universal_newlines (latin1_decode bs)))
              = Some (universal_newlines bs)"
    using utf8_roundtrip_latin1 [of "universal_newlines bs"] universal_newlines_bound [of bs]
    by (simp add: latin1_decode_def)
  from r i c l show ?thesis by blast
qed

theorem decode_fallback_witness:
  "read_bytes latin_env [''tmp'', ''a.txt''] = Inr [255, 13, 10, 104]
   \<and> utf8_decode [255, 13, 10, 104] = None
   \<and> read_content latin_env [''tmp'', ''a.txt''] = Inr [255, 10, 104]
   \<and> combined_file latin_env [''in'', ''a.jar''] ''.txt'' [''tmp'', ''a.txt'']
        \<lparr>open_files = [(''.txt'', \<lparr>hpath = [''o'', ''txt_context_1.txt''], appending = True, pending = []\<rparr>)],
         created_context_files = [], cdisk = empty_fs\<rparr>
       = (\<lparr>open_files = [(''.txt'', \<lparr>hpath = [''o'', ''txt_context_1.txt''], appending = True,
                            pending = utf8_encode (combined_header ''a.jar'' ''a.txt'')
                                      @ [195, 191, 10, 104]\<rparr>)],
           created_context_files = [], cdisk = empty_fs\<rparr>, None)"
  using decode_fallback
          [where e = latin_env and p = "[''tmp'', ''a.txt'']" and bs = "[255, 13, 10, 104]"
             and sz = 4 and src = "[''tmp'']" and rel = "[''a.txt'']" and out = "[''o'']"
             and ?stem0.0 = "''txt_context''" and m = 100
             and s = "\<lparr>part_num = 1, current_size = 0, outfile = None, context_files = [], disk = empty_fs\<rparr>"
             and jar = "[''in'', ''a.jar'']" and ext = "''.txt''"
             and c = "\<lparr>open_files = [(''.txt'', \<lparr>hpath = [''o'', ''txt_context_1.txt''],
                                          appending = True, pending = []\<rparr>)],
                        created_context_files = [], cdisk = empty_fs\<rparr>"]
  by (simp add: latin_env_def plain_env_def latin1_decode_def write_bytes_def write_handle_def
        empty_fs_def utf8_encode_def utf8_encode_cp_def)

section \<open>Individual mode: the loop follows the rule\<close>

lemma bundle_files_Nil [simp]: "bundle_files bp rc [] m = m"
  by (simp add: bundle_files_def)

lemma bundle_files_snoc [simp]:
  "bundle_files bp rc (ps @ [p]) m = (bundle_files bp rc ps m)(bp (Suc (length ps)) \<mapsto> rc p)"
  by (simp add: bundle_files_def enumerate_append_eq)

lemma bundle_files_snoc2 [simp]:
  "bundle_files bp rc (ps @ [p, q]) m =
     (bundle_files bp rc ps m)(bp (Suc (length ps)) \<mapsto> rc p, bp (Suc (Suc (length ps))) \<mapsto> rc q)"
  using bundle_files_snoc [of bp rc "ps @ [p]" q m] by simp

lemma read_content_ok: "read_bytes e f = Inr bs \<Longrightarrow> \<exists>t. read_content e f = Inr t"
  by (simp add: read_content_def split: option.splits)

lemma records_snoc [simp]: "records e src (part @ [x]) = records e src part @ file_record e src x"
  by (simp add: records_def)

lemma records_Nil [simp]: "records e src [] = []"
  by (simp add: records_def)

lemma records_single [simp]: "records e src [x] = file_record e src x"
  by (simp add: records_def)

lemma process_file_missing:
  "stat_size e f = Inl FileNotFoundError \<Longrightarrow>
   process_file e out src M stem0 f s = (s, None)"
  by (simp add: process_file_def)

lemma process_file_step:
  assumes "stat_size e f = Inr n" and "relative_to f src = Inr rel" and "read_bytes e f = Inr bs"
  shows "process_file e out src M stem0 f (agg_of e out src stem0 cf d a)
           = (agg_of e out src stem0 cf d (split_step M a (f, n)), None)"
proof -
  obtain past cur sz where a: "a = (past, cur, sz)" by (cases a) auto
  obtain t where t: "read_content e f = Inr t" using assms(3) read_content_ok by blast
  have fr: "file_record e src (f, n) = utf8_encode (header rel) @ utf8_encode t"
    using assms(2) t by (simp add: file_record_def)
  show ?thesis
  proof (cases "cur = []")
    case True
    then show ?thesis
      using assms(1,2) t fr a
      by (simp add: process_file_def agg_of_def rollover_def ensure_open_def append_file_def
            Let_def open_write_def write_bytes_def)
  next
    case False
    show ?thesis
    proof (cases "real (sz + n) > M \<and> 0 < sz")
      case True
      then show ?thesis
        using assms(1,2) t fr a False
        by (simp add: process_file_def agg_of_def rollover_def ensure_open_def append_file_def
              Let_def open_write_def write_bytes_def close_file_def flushed_def)
    next
      case F2: False
      then show ?thesis
        using assms(1,2) t fr a False
        by (auto simp: process_file_def agg_of_def rollover_def ensure_open_def append_file_def
              Let_def open_write_def write_bytes_def close_file_def flushed_def)
    qed
  qed
qed

lemma sized_Nil [simp]: "sized e [] = []"
  by (simp add: sized_def map_filter_simps)

lemma sized_Cons:
  "sized e (f # fs0) =
     (case stat_size e f of Inr n \<Rightarrow> (f, n) # sized e fs0 | Inl err \<Rightarrow> sized e fs0)"
  by (simp add: sized_def map_filter_simps split: sum.splits)

lemma for_each_process_file:
  assumes "\<forall>f\<in>set fs0. well_behaved e src f"
  shows "for_each (process_file e out src M stem0) fs0 (agg_of e out src stem0 cf d a)
           = (agg_of e out src stem0 cf d (foldl (split_step M) a (sized e fs0)), None)"
  using assms
proof (induction fs0 arbitrary: a)
  case Nil
  show ?case by simp
next
  case (Cons f fs0)
  then have wb: "well_behaved e src f" and rest: "\<forall>f\<in>set fs0. well_behaved e src f" by simp_all
  show ?case
  proof (cases "stat_size e f")
    case (Inl err)
    then have "err = FileNotFoundError" using wb by (simp add: well_behaved_def)
    then show ?thesis
      using Inl Cons.IH [OF rest] by (simp add: process_file_missing sized_Cons)
  next
    case (Inr n)
    then obtain rel bs where "relative_to f src = Inr rel" "read_bytes e f = Inr bs"
      using wb by (auto simp: well_behaved_def)
    then show ?thesis
      using Inr Cons.IH [OF rest] by (simp add: process_file_step sized_Cons)
  qed
qed

lemma agg_of_start:
  "agg_of e out src stem0 cf d ([], [], 0)
     = \<lparr>part_num = 1, current_size = 0, outfile = None, context_files = cf, disk = d\<rparr>"
  by (simp add: agg_of_def)

lemma process_key_refines:
  assumes "\<forall>f\<in>set fs0. well_behaved e src f"
  shows "process_key e out src M ext fs0 (cf, d) =
           ((cf @ map (bundle_path out (strip_dot ext @ ''_context''))
                    [1 ..< Suc (length (spec_bundles M (sized e fs0)))],
             d\<lparr>files := bundle_files (bundle_path out (strip_dot ext @ ''_context'')) (records e src)
                           (spec_bundles M (sized e fs0)) (files d)\<rparr>),
            None)"
proof -
  obtain past cur sz where a: "foldl (split_step M) ([], [], 0) (sized e fs0) = (past, cur, sz)"
    by (cases "foldl (split_step M) ([], [], 0) (sized e fs0)") auto
  have run: "for_each (process_file e out src M (strip_dot ext @ ''_context'')) fs0
               \<lparr>part_num = 1, current_size = 0, outfile = None, context_files = cf, disk = d\<rparr>
             = (agg_of e out src (strip_dot ext @ ''_context'') cf d (past, cur, sz), None)"
    using for_each_process_file [OF assms, of out M "strip_dot ext @ ''_context''" cf d "([], [], 0)"]
    by (simp only: agg_of_start a)
  show ?thesis
    unfolding process_key_def fst_conv snd_conv run spec_bundles_def a
    by (simp add: agg_of_def close_file_def flushed_def)
qed

lemma digit_val_digit: "k < 10 \<Longrightarrow> digit_val (''0123456789'' ! k) = k"
proof -
  assume "k < 10"
  then consider "k = 0" | "k = 1" | "k = 2" | "k = 3" | "k = 4" | "k = 5" | "k = 6" | "k = 7"
    | "k = 8" | "k = 9" by atomize_elim presburger
  then show ?thesis by cases (simp_all add: digit_val_def)
qed

lemma read_str_nat: "foldl (\<lambda>a c. 10 * a + digit_val c) 0 (str_nat n) = n"
proof (induction n rule: str_nat.induct)
  case (1 n)
  show ?case
  proof (cases "n < 10")
    case True
    then show ?thesis by (subst str_nat.simps) (simp add: digit_val_digit)
  next
    case False
    then show ?thesis
      using 1 by (subst str_nat.simps) (simp add: digit_val_digit)
  qed
qed

lemma str_nat_inj: "str_nat m = str_nat n \<Longrightarrow> m = n"
  by (metis read_str_nat)

lemma bundle_path_inj: "bundle_path out stem0 m = bundle_path out stem0 n \<Longrightarrow> m = n"
  by (simp add: bundle_path_def str_nat_inj)

lemma bundle_files_nth:
  assumes "\<And>m n. bp m = bp n \<Longrightarrow> m = n"
  shows "i < length parts \<Longrightarrow> bundle_files bp rc parts m (bp (Suc i)) = Some (rc (parts ! i))"
proof (induction parts rule: rev_induct)
  case Nil
  then show ?case by simp
next
  case (snoc p ps)
  show ?case
  proof (cases "i = length ps")
    case True
    then show ?thesis by simp
  next
    case False
    then have "i < length ps" using snoc.prems by simp
    moreover have "bp (Suc i) \<noteq> bp (Suc (length ps))" using False assms by blast
    ultimately show ?thesis using snoc.IH by (simp add: nth_append)
  qed
qed

section \<open>Individual mode: the bundles\<close>

lemma concat_all_parts:
  "concat (all_parts (foldl (split_step M) (past, cur, sz) xs)) = concat past @ cur @ xs"
proof (induction xs arbitrary: past cur sz)
  case Nil
  show ?case by simp
next
  case (Cons x xs)
  obtain f n where x: "x = (f, n)" by (cases x) auto
  show ?case using Cons [of "past @ [cur]" "[(f, n)]" n] Cons [of past "cur @ [(f, n)]" "sz + n"] x
    by simp
qed

lemma concat_spec_bundles: "concat (spec_bundles M xs) = xs"
  using concat_all_parts [of M "[]" "[]" 0 xs] by (simp add: spec_bundles_def)

lemma sized_stat: "x \<in> set (sized e fs0) \<Longrightarrow> stat_size e (fst x) = Inr (snd x)"
  by (induction fs0) (auto simp: sized_Cons split: sum.splits)

lemma part_num_step:
  "stat_size e f = Inr n \<Longrightarrow>
   part_num (fst (process_file e out src M stem0 f s))
     = (if outfile s \<noteq> None \<and> real (current_size s + n) > M \<and> 0 < current_size s
        then part_num s + 1 else part_num s)"
  by (auto simp: process_file_def rollover_def ensure_open_def append_file_def Let_def
           split: option.splits sum.splits)

lemma process_key_files:
  assumes "\<forall>f\<in>set fs0. well_behaved e src f" and "i < length (spec_bundles M (sized e fs0))"
  shows "files (snd (fst (process_key e out src M ext fs0 (cf, d))))
           (bundle_path out (strip_dot ext @ ''_context'') (Suc i))
         = Some (records e src (spec_bundles M (sized e fs0) ! i))"
  using assms(2)
  by (simp add: process_key_refines [OF assms(1)] bundle_files_nth [OF bundle_path_inj])

lemma scenario_bundles:
  "spec_bundles (100 * 1024 * 1024) [(f1, 41943040), (f2, 41943040), (f3, 41943040)]
     = [[(f1, 41943040), (f2, 41943040)], [(f3, 41943040)]]"
  by (simp add: spec_bundles_def)

lemma scenario_files:
  assumes "\<forall>f\<in>set fs0. well_behaved e src f"
    and "sized e fs0 = [(f1, 41943040), (f2, 41943040), (f3, 41943040)]"
  shows "files (snd (fst (process_key e out src (100 * 1024 * 1024) ext fs0 (cf, d))))
           (bundle_path out (strip_dot ext @ ''_context'') 1)
         = Some (file_record e src (f1, 41943040) @ file_record e src (f2, 41943040))"
    and "files (snd (fst (process_key e out src (100 * 1024 * 1024) ext fs0 (cf, d))))
           (bundle_path out (strip_dot ext @ ''_context'') 2)
         = Some (file_record e src (f3, 41943040))"
proof -
  have sb: "spec_bundles 104857600 (sized e fs0)
              = [[(f1, 41943040), (f2, 41943040)], [(f3, 41943040)]]"
    using scenario_bundles [of f1 f2 f3] by (simp add: assms(2))
  show "files (snd (fst (process_key e out src (100 * 1024 * 1024) ext fs0 (cf, d))))
           (bundle_path out (strip_dot ext @ ''_context'') 1)
         = Some (file_record e src (f1, 41943040) @ file_record e src (f2, 41943040))"
    using process_key_files [OF assms(1), of 0 104857600 out ext cf d]
    by (simp add: sb records_def)
  show "files (snd (fst (process_key e out src (100 * 1024 * 1024) ext fs0 (cf, d))))
           (bundle_path out (strip_dot ext @ ''_context'') 2)
         = Some (file_record e src (f3, 41943040))"
    using process_key_files [OF assms(1), of 1 104857600 out ext cf d]
    by (simp add: sb records_def numeral_2_eq_2)
qed

text \<open>
  C1. In the loop over the files of a key, the part number goes up by one exactly
  when a bundle is open, the running size plus the size of the file exceeds the bound
  and the running size is positive. When the files of the key are well behaved, the
  loop ends normally and has written the bundles of the rule: part \<open>i + 1\<close> holds the
  records of the \<open>i\<close>-th bundle, each file whole, and the bundles put one after the
  other are the files that have a size, in order. For three files of 40 MB and a bound
  of 100 MB, part 1 holds the first two files and part 2 the third.
\<close>

theorem individual_bundling:
  assumes "\<forall>f\<in>set fs0. well_behaved e src f"
  shows "(stat_size e f = Inr n \<longrightarrow>
            part_num (fst (process_file e out src M stem0 f s))
              = (if outfile s \<noteq> None \<and> real (current_size s + n) > M \<and> 0 < current_size s
                 then part_num s + 1 else part_num s))
       \<and> process_key e out src M ext fs0 (cf, d) =
           ((cf @ map (bundle_path out (strip_dot ext @ ''_context''))
                    [1 ..< Suc (length (spec_bundles M (sized e fs0)))],
             d\<lparr>files := bundle_files (bundle_path out (strip_dot ext @ ''_context'')) (records e src)
                           (spec_bundles M (sized e fs0)) (files d)\<rparr>),
            None)
       \<and> (\<forall>i < length (spec_bundles M (sized e fs0)).
            files (snd (fst (process_key e out src M ext fs0 (cf, d))))
              (bundle_path out (strip_dot ext @ ''_context'') (Suc i))
            = Some (records e src (spec_bundles M (sized e fs0) ! i)))
       \<and> concat (spec_bundles M (sized e fs0)) = sized e fs0
       \<and> (sized e fs0 = [(f1, 41943040), (f2, 41943040), (f3, 41943040)] \<longrightarrow>
            files (snd (fst (process_key e out src (100 * 1024 * 1024) ext fs0 (cf, d))))
              (bundle_path out (strip_dot ext @ ''_context'') 1)
            = Some (file_record e src (f1, 41943040) @ file_record e src (f2, 41943040))
            \<and> files (snd (fst (process_key e out src (100 * 1024 * 1024) ext fs0 (cf, d))))
              (bundle_path out (strip_dot ext @ ''_context'') 2)
            = Some (file_record e src (f3, 41943040)))"
  using part_num_step [of e f n out src M stem0 s] process_key_refines [OF assms, of out M ext cf d]
    process_key_files [OF assms, of _ M out ext cf d] concat_spec_bundles [of M "sized e fs0"]
    scenario_files [OF assms, of f1 f2 f3 out ext cf d]
  by blast

lemma plain_well_behaved: "well_behaved plain_env [''tmp''] (''tmp'' # rest)"
  by (simp add: well_behaved_def plain_env_def)

lemma plain_sized: "sized plain_env (f # fs0) = (f, 2) # sized plain_env fs0"
  by (simp add: sized_Cons plain_env_def)

text \<open>Three files of two bytes and a bound of four bytes: two parts.\<close>

theorem individual_bundling_witness:
  "process_key plain_env [''out''] [''tmp''] 4 ''.txt''
       [[''tmp'', ''a.txt''], [''tmp'', ''b.txt''], [''tmp'', ''c.txt'']] ([], empty_fs)
     = (([[''out'', ''txt_context_1.txt''], [''out'', ''txt_context_2.txt'']],
         empty_fs\<lparr>files :=
           [[''out'', ''txt_context_1.txt''] \<mapsto>
                file_record plain_env [''tmp''] ([''tmp'', ''a.txt''], 2)
                @ file_record plain_env [''tmp''] ([''tmp'', ''b.txt''], 2),
            [''out'', ''txt_context_2.txt''] \<mapsto>
                file_record plain_env [''tmp''] ([''tmp'', ''c.txt''], 2)]\<rparr>), None)"
proof -
  have wb: "\<forall>f\<in>set [[''tmp'', ''a.txt''], [''tmp'', ''b.txt''], [''tmp'', ''c.txt'']].
              well_behaved plain_env [''tmp''] f"
    by (simp add: plain_well_behaved)
  have "process_key plain_env [''out''] [''tmp''] 4 ''.txt''
          [[''tmp'', ''a.txt''], [''tmp'', ''b.txt''], [''tmp'', ''c.txt'']] ([], empty_fs) =
           (([] @ map (bundle_path [''out''] (strip_dot ''.txt'' @ ''_context''))
                    [1 ..< Suc (length (spec_bundles 4 (sized plain_env
                       [[''tmp'', ''a.txt''], [''tmp'', ''b.txt''], [''tmp'', ''c.txt'']])))],
             empty_fs\<lparr>files := bundle_files (bundle_path [''out''] (strip_dot ''.txt'' @ ''_context''))
                           (records plain_env [''tmp''])
                           (spec_bundles 4 (sized plain_env
                              [[''tmp'', ''a.txt''], [''tmp'', ''b.txt''], [''tmp'', ''c.txt'']]))
                           (files empty_fs)\<rparr>),
            None)"
    using individual_bundling [OF wb] by blast
  then show ?thesis
    by (simp add: plain_sized spec_bundles_def bundle_path_def strip_dot_def str_nat.simps
          bundle_files_def records_def empty_fs_def upt_conv_Cons)
qed

section \<open>Individual mode: the bound on the bundles\<close>



























end
